theory Spec2Isabelle
  imports
    Complex_Main
    "HOL-Library.AList"
    "HOL-Library.Multiset"
    "HOL-Library.Char_ord"
    "HOL-Library.List_Lexorder"
begin

section \<open>Coverage reporter: \<^verbatim>\<open>scripts/analyze_coverage.py\<close>\<close>

text \<open>
  The script reads \<^verbatim>\<open>coverage.out\<close> line by line, folds every record line into a
  dictionary of per-package counters and prints two tables and an overall percentage.
  The embedding below follows the script statement by statement.

  Conventions of the embedding.
  \<^item> A Python \<^verbatim>\<open>str\<close> is a \<^typ>\<open>string\<close>; the model is exact on ASCII text. The non-ASCII
    code points that Python also treats as white space or as decimal digits are not
    modelled.
  \<^item> Python's unbounded \<^verbatim>\<open>int\<close> is \<^typ>\<open>int\<close>.
  \<^item> The input file is the list of its lines, in file order (a line may or may not carry
    its line terminator: \<^verbatim>\<open>startswith\<close>, \<^verbatim>\<open>strip\<close> and \<^verbatim>\<open>split\<close> do not depend on it).
  \<^item> \<^verbatim>\<open>defaultdict\<close> is an association list in insertion order, as a Python dictionary is.
  \<^item> An uncaught exception is the \<open>Inl\<close> branch of a sum; the only exception the loop can
    raise is the \<^verbatim>\<open>ValueError\<close> of \<^verbatim>\<open>int()\<close>.
  \<^item> The percentages, which Python computes in binary floating point, are exact
    rationals here (\<^typ>\<open>rat\<close>): rounding, and a quotient beyond the range of a float, are
    outside the model. The fixed-width formatting of the printed lines is not modelled,
    the printed values are.
\<close>

subsection \<open>String primitives\<close>

text \<open>White space as \<^verbatim>\<open>str.split()\<close> and \<^verbatim>\<open>str.strip()\<close> see it, on ASCII:
  TAB, LF, VT, FF, CR, FS, GS, RS, US and the space.\<close>

definition isspace :: "char \<Rightarrow> bool" where
  "isspace c = (of_char c \<in> {9, 10, 11, 12, 13, 28, 29, 30, 31, 32 :: nat})"

text \<open>\<^verbatim>\<open>s.startswith(p)\<close>\<close>

definition startswith :: "string \<Rightarrow> string \<Rightarrow> bool" where
  "startswith p s = (take (length p) s = p)"

text \<open>\<^verbatim>\<open>s.strip()\<close>: white space removed at both ends.\<close>

definition strip :: "string \<Rightarrow> string" where
  "strip s = rev (dropWhile isspace (rev (dropWhile isspace s)))"

text \<open>\<^verbatim>\<open>s.split()\<close>: the maximal runs of characters that are not white space, in order.
  \<open>split_ws w s\<close> scans \<open>s\<close> with \<open>w\<close> the field read so far.\<close>

fun split_ws :: "string \<Rightarrow> string \<Rightarrow> string list" where
  "split_ws w [] = (if w = [] then [] else [w])"
| "split_ws w (c # cs) =
     (if isspace c then (if w = [] then split_ws [] cs else w # split_ws [] cs)
      else split_ws (w @ [c]) cs)"

definition split_fields :: "string \<Rightarrow> string list" where
  "split_fields s = split_ws [] s"

text \<open>\<^verbatim>\<open>s.split(':')[0]\<close>: the text before the first colon (all of \<open>s\<close> when it has none).\<close>

definition before_colon :: "string \<Rightarrow> string" where
  "before_colon s = takeWhile (\<lambda>c. c \<noteq> CHR '':'') s"

text \<open>\<^verbatim>\<open>s.split('/')[-1]\<close>: the text after the last slash.\<close>

definition last_segment :: "string \<Rightarrow> string" where
  "last_segment s = rev (takeWhile (\<lambda>c. c \<noteq> CHR ''/'') (rev s))"

subsection \<open>\<^verbatim>\<open>int(s)\<close> on a string\<close>

datatype error = ValueError

definition isdigit :: "char \<Rightarrow> bool" where
  "isdigit c = (48 \<le> (of_char c :: nat) \<and> (of_char c :: nat) \<le> 57)"

text \<open>The digits and underscores after the sign: a single underscore may stand between two
  digits, never first, last or doubled. \<open>prev\<close> is the character read before.\<close>

fun digits_ok :: "char \<Rightarrow> string \<Rightarrow> bool" where
  "digits_ok prev [] = (prev \<noteq> CHR ''_'')"
| "digits_ok prev (c # cs) =
     (if c = CHR ''_'' then prev \<noteq> CHR ''_'' \<and> digits_ok c cs
      else isdigit c \<and> digits_ok c cs)"

definition digits_value :: "string \<Rightarrow> int" where
  "digits_value ds = foldl (\<lambda>acc c. acc * 10 + (int (of_char c) - 48)) 0 ds"

text \<open>CPython refuses a decimal string of more than \<^verbatim>\<open>sys.int_max_str_digits\<close> digits
  (4300 unless configured otherwise) with the same \<^verbatim>\<open>ValueError\<close>.\<close>

definition int_max_str_digits :: nat where
  "int_max_str_digits = 4300"

text \<open>\<^verbatim>\<open>int(s)\<close> for a string without white space (\<^verbatim>\<open>int()\<close> strips white space at both
  ends first; the fields that \<^verbatim>\<open>split()\<close> returns have none): an optional sign, then the
  digits, read in base 10. \<open>None\<close> is the \<^verbatim>\<open>ValueError\<close>.\<close>

definition py_int :: "string \<Rightarrow> int option" where
  "py_int s =
     (let neg = (s \<noteq> [] \<and> hd s = CHR ''-'');
          body = (if s \<noteq> [] \<and> (hd s = CHR ''+'' \<or> hd s = CHR ''-'') then tl s else s);
          ds = filter isdigit body
      in if body = [] \<or> hd body = CHR ''_'' \<or> \<not> digits_ok (CHR 0x00) body then None
         else if int_max_str_digits < length ds then None
         else Some (if neg then - digits_value ds else digits_value ds))"

subsection \<open>The package key\<close>

text \<open>\<^verbatim>\<open>re.match(r'(github\.com/junbin-yang/go-kitbox/pkg/[^/]+)', file_path)\<close>: the pattern is
  a literal prefix followed by one or more characters other than the slash, matched at the
  start of \<open>file_path\<close>; group 1 is the prefix with the longest such run. The literal prefix
  is a parameter of the model, \<open>pkg_prefix\<close> is the script's.\<close>

definition pkg_prefix :: string where
  "pkg_prefix = ''github.com/junbin-yang/go-kitbox/pkg/''"

definition pkg_match :: "string \<Rightarrow> string \<Rightarrow> string option" where
  "pkg_match pfx file_path =
     (let seg = takeWhile (\<lambda>c. c \<noteq> CHR ''/'') (drop (length pfx) file_path)
      in if startswith pfx file_path \<and> seg \<noteq> [] then Some (pfx @ seg) else None)"

subsection \<open>The parsing loop\<close>

text \<open>One value of \<^verbatim>\<open>pkg_stats\<close>: \<^verbatim>\<open>{'total': 0, 'covered': 0}\<close> when created.\<close>

record stats =
  total :: int
  covered :: int

type_synonym pkg_stats = "(string \<times> stats) list"

text \<open>The body of the loop up to the dictionary update, for one line: the line is skipped
  (\<open>Inr None\<close>), it raises (\<open>Inl\<close>), or it yields the package key, the statement count
  \<^verbatim>\<open>int(parts[1])\<close> and the execution count \<^verbatim>\<open>int(parts[2])\<close>. The execution count is
  converted before the pattern is tried, the statement count only after it matched.\<close>

definition parse_line :: "string \<Rightarrow> string \<Rightarrow> error + (string \<times> int \<times> int) option" where
  "parse_line pfx line =
     (if startswith ''mode:'' line then Inr None
      else
        let parts = split_fields (strip line) in
        if length parts < 3 then Inr None
        else
          let file_path = before_colon (parts ! 0) in
          case py_int (parts ! 2) of
            None \<Rightarrow> Inl ValueError
          | Some execs \<Rightarrow>
              (case pkg_match pfx file_path of
                 None \<Rightarrow> Inr None
               | Some pkg \<Rightarrow>
                   (case py_int (parts ! 1) of
                      None \<Rightarrow> Inl ValueError
                    | Some statements \<Rightarrow> Inr (Some (pkg, statements, execs)))))"

text \<open>\<^verbatim>\<open>pkg_stats[pkg]\<close> of a \<^verbatim>\<open>defaultdict\<close>: the stored value, or the fresh one.\<close>

definition lookup :: "pkg_stats \<Rightarrow> string \<Rightarrow> stats" where
  "lookup d pkg = (case map_of d pkg of None \<Rightarrow> \<lparr>total = 0, covered = 0\<rparr> | Some st \<Rightarrow> st)"

text \<open>The two updates of the loop body. A new key goes to the end of the dictionary, a known
  key keeps its place.\<close>

definition fold_record :: "pkg_stats \<Rightarrow> string \<times> int \<times> int \<Rightarrow> pkg_stats" where
  "fold_record d r =
     (case r of (pkg, statements, execs) \<Rightarrow>
        let st = lookup d pkg;
            st1 = st\<lparr>total := total st + statements\<rparr>;
            st2 = (if execs > 0 then st1\<lparr>covered := covered st1 + statements\<rparr> else st1)
        in AList.update pkg st2 d)"

definition process_line :: "string \<Rightarrow> pkg_stats \<Rightarrow> string \<Rightarrow> error + pkg_stats" where
  "process_line pfx d line =
     (case parse_line pfx line of
        Inl e \<Rightarrow> Inl e
      | Inr None \<Rightarrow> Inr d
      | Inr (Some r) \<Rightarrow> Inr (fold_record d r))"

text \<open>\<^verbatim>\<open>for line in f\<close>: an exception ends the loop and the program.\<close>

fun process_lines :: "string \<Rightarrow> pkg_stats \<Rightarrow> string list \<Rightarrow> error + pkg_stats" where
  "process_lines pfx d [] = Inr d"
| "process_lines pfx d (line # rest) =
     (case process_line pfx d line of
        Inl e \<Rightarrow> Inl e
      | Inr d' \<Rightarrow> process_lines pfx d' rest)"

subsection \<open>The report\<close>

text \<open>One element of \<^verbatim>\<open>results\<close>: \<^verbatim>\<open>(pkg, coverage, status, total, covered)\<close>.\<close>

type_synonym result = "string \<times> rat \<times> string \<times> int \<times> int"

definition result_of :: "string \<times> stats \<Rightarrow> result" where
  "result_of item =
     (case item of (pkg, st) \<Rightarrow>
        let coverage = (of_int (covered st) / of_int (total st)) * 100;
            status = (if coverage \<ge> 75 then ''Good'' else ''Needs Work'')
        in (pkg, coverage, status, total st, covered st))"

text \<open>The loop over \<^verbatim>\<open>sorted(pkg_stats.items())\<close> that keeps the packages with a positive
  total, then \<^verbatim>\<open>results.sort(key=lambda x: x[1])\<close>, a stable sort.\<close>

definition results :: "pkg_stats \<Rightarrow> result list" where
  "results d =
     sort_key (\<lambda>x. fst (snd x))
       (map result_of (filter (\<lambda>item. total (snd item) > 0) (sort_key fst d)))"

definition overall_total :: "pkg_stats \<Rightarrow> int" where
  "overall_total d = sum_list (map (\<lambda>item. total (snd item)) d)"

definition overall_covered :: "pkg_stats \<Rightarrow> int" where
  "overall_covered d = sum_list (map (\<lambda>item. covered (snd item)) d)"

definition overall_coverage :: "pkg_stats \<Rightarrow> rat" where
  "overall_coverage d =
     (if overall_total d > 0
      then of_int (overall_covered d) / of_int (overall_total d) * 100
      else 0)"

text \<open>The rows of the first table: short name, percentage, status.\<close>

definition coverage_table :: "pkg_stats \<Rightarrow> (string \<times> rat \<times> string) list" where
  "coverage_table d =
     map (\<lambda>x. case x of (pkg, coverage, status, tot, cov) \<Rightarrow> (last_segment pkg, coverage, status))
       (results d)"

text \<open>The rows of the second table: short name, percentage, \<^verbatim>\<open>missing\<close>.\<close>

definition improvement_table :: "pkg_stats \<Rightarrow> (string \<times> rat \<times> int) list" where
  "improvement_table d =
     map (\<lambda>x. case x of (pkg, coverage, status, tot, cov) \<Rightarrow> (last_segment pkg, coverage, tot - cov))
       (filter (\<lambda>x. fst (snd x) < 75) (results d))"

text \<open>The whole run: what is printed, or the exception that ended it before any output.\<close>

record report =
  table :: "(string \<times> rat \<times> string) list"
  overall :: rat
  needing :: "(string \<times> rat \<times> int) list"

definition analyze :: "string \<Rightarrow> string list \<Rightarrow> error + report" where
  "analyze pfx lines =
     (case process_lines pfx [] lines of
        Inl e \<Rightarrow> Inl e
      | Inr d \<Rightarrow>
          Inr \<lparr>table = coverage_table d, overall = overall_coverage d,
               needing = improvement_table d\<rparr>)"

subsection \<open>The loop on finite maps\<close>

text \<open>The dictionary update and the loop body again, on the finite map \<open>map_of d\<close> that a
  dictionary \<open>d\<close> denotes, and with the exception as a state that absorbs every further
  line. These two are not part of the script: they are the abstraction in which two lines
  commute, used to prove that the order of the lines does not matter.\<close>

definition fold_record_map ::
  "(string \<rightharpoonup> stats) \<Rightarrow> string \<times> int \<times> int \<Rightarrow> (string \<rightharpoonup> stats)" where
  "fold_record_map m r =
     (case r of (pkg, statements, execs) \<Rightarrow>
        let st = (case m pkg of None \<Rightarrow> \<lparr>total = 0, covered = 0\<rparr> | Some st \<Rightarrow> st)
        in m(pkg \<mapsto> \<lparr>total = total st + statements,
                       covered = covered st + (if 0 < execs then statements else 0)\<rparr>))"

definition line_step ::
  "string \<Rightarrow> string \<Rightarrow> error + (string \<rightharpoonup> stats) \<Rightarrow> error + (string \<rightharpoonup> stats)" where
  "line_step pfx line r =
     (case r of
        Inl e \<Rightarrow> Inl e
      | Inr m \<Rightarrow>
          (case parse_line pfx line of
             Inl e \<Rightarrow> Inl e
           | Inr None \<Rightarrow> Inr m
           | Inr (Some rec) \<Rightarrow> Inr (fold_record_map m rec)))"

section \<open>Properties of the parsing loop\<close>

subsection \<open>Fields\<close>

text \<open>A field is never empty and holds no white space, so \<^verbatim>\<open>int()\<close> has nothing to strip from
  it; and \<^verbatim>\<open>strip()\<close> before \<^verbatim>\<open>split()\<close> changes nothing: \<open>parts\<close> are the fields of the line.\<close>

lemma split_ws_fields:
  assumes "x \<in> set (split_ws w s)" and "\<forall>c\<in>set w. \<not> isspace c"
  shows "x \<noteq> [] \<and> (\<forall>c\<in>set x. \<not> isspace c)"
  using assms
proof (induction s arbitrary: w)
  case Nil
  then show ?case by (auto split: if_splits)
next
  case (Cons c cs)
  show ?case
  proof (cases "isspace c")
    case True
    with Cons.prems have "x = w \<and> w \<noteq> [] \<or> x \<in> set (split_ws [] cs)"
      by (auto split: if_splits)
    then show ?thesis
      using Cons.IH [of "[]"] Cons.prems(2) by auto
  next
    case False
    with Cons.prems have "x \<in> set (split_ws (w @ [c]) cs)" "\<forall>c'\<in>set (w @ [c]). \<not> isspace c'"
      by auto
    then show ?thesis
      by (rule Cons.IH)
  qed
qed

lemma split_fields_no_space:
  "x \<in> set (split_fields s) \<Longrightarrow> x \<noteq> [] \<and> (\<forall>c\<in>set x. \<not> isspace c)"
  using split_ws_fields [of x "[]" s] by (simp add: split_fields_def)

lemma split_ws_trailing_space:
  "isspace c \<Longrightarrow> split_ws w (s @ [c]) = split_ws w s"
  by (induction s arbitrary: w) simp_all

lemma split_ws_rstrip:
  "split_ws w (rev (dropWhile isspace (rev s))) = split_ws w s"
proof (induction s rule: rev_induct)
  case Nil
  show ?case by simp
next
  case (snoc c s)
  then show ?case
    by (simp add: split_ws_trailing_space)
qed

lemma split_ws_lstrip:
  "split_ws [] (dropWhile isspace s) = split_ws [] s"
  by (induction s) simp_all

lemma split_fields_strip: "split_fields (strip s) = split_fields s"
  by (simp add: split_fields_def strip_def split_ws_rstrip split_ws_lstrip)

subsection \<open>One line\<close>

text \<open>When a line yields a record: it is no mode line, it has three fields, the third and
  the second are integers and the path matches.\<close>

lemma parse_line_record_iff:
  "parse_line pfx line = Inr (Some (pkg, statements, execs)) \<longleftrightarrow>
     \<not> startswith ''mode:'' line \<and>
     3 \<le> length (split_fields (strip line)) \<and>
     py_int (split_fields (strip line) ! 2) = Some execs \<and>
     pkg_match pfx (before_colon (split_fields (strip line) ! 0)) = Some pkg \<and>
     py_int (split_fields (strip line) ! 1) = Some statements"
  by (auto simp: parse_line_def Let_def split: option.splits)

lemma parse_line_skipped:
  assumes "startswith ''mode:'' line \<or> length (split_fields (strip line)) < 3"
  shows "parse_line pfx line = Inr None"
  using assms by (auto simp: parse_line_def Let_def)

lemma parse_line_unmatched:
  assumes "3 \<le> length (split_fields (strip line))"
    and "pkg_match pfx (before_colon (split_fields (strip line) ! 0)) = None"
    and "py_int (split_fields (strip line) ! 2) = Some execs"
  shows "parse_line pfx line = Inr None"
  using assms by (simp add: parse_line_def Let_def)

lemma parse_line_bad_execs:
  assumes "\<not> startswith ''mode:'' line"
    and "3 \<le> length (split_fields (strip line))"
    and "py_int (split_fields (strip line) ! 2) = None"
  shows "parse_line pfx line = Inl ValueError"
  using assms by (simp add: parse_line_def Let_def)

lemma error_unique: "(e :: error) = e'"
  by (cases e; cases e') simp

subsection \<open>The dictionary update\<close>

lemma fold_record_update:
  "fold_record d (pkg, n, c) =
     AList.update pkg \<lparr>total = total (lookup d pkg) + n,
                        covered = covered (lookup d pkg) + (if 0 < c then n else 0)\<rparr> d"
  by (cases "lookup d pkg") (simp add: fold_record_def Let_def)

lemma map_of_fold_record:
  "map_of (fold_record d (pkg, n, c)) =
     (map_of d)(pkg \<mapsto> \<lparr>total = total (lookup d pkg) + n,
                          covered = covered (lookup d pkg) + (if 0 < c then n else 0)\<rparr>)"
  by (simp add: fold_record_update update_conv')

lemma lookup_fold_record:
  "lookup (fold_record d (pkg, n, c)) k =
     (if k = pkg
      then \<lparr>total = total (lookup d pkg) + n,
            covered = covered (lookup d pkg) + (if 0 < c then n else 0)\<rparr>
      else lookup d k)"
  by (simp add: lookup_def map_of_fold_record)

lemma lookup_cases:
  "lookup d pkg = \<lparr>total = 0, covered = 0\<rparr> \<or> (pkg, lookup d pkg) \<in> set d"
  by (auto simp: lookup_def split: option.splits dest: map_of_SomeD)

lemma set_update_subset: "set (AList.update k v al) \<subseteq> insert (k, v) (set al)"
  by (induction al) auto

lemma distinct_fold_record:
  "distinct (map fst d) \<Longrightarrow> distinct (map fst (fold_record d r))"
  by (cases r) (simp add: fold_record_def Let_def distinct_update)

lemma fold_record_covered_le_total:
  assumes inv: "\<forall>item\<in>set d. covered (snd item) \<le> total (snd item)"
    and nonneg: "0 \<le> n"
  shows "\<forall>item\<in>set (fold_record d (pkg, n, c)). covered (snd item) \<le> total (snd item)"
proof
  fix item
  assume "item \<in> set (fold_record d (pkg, n, c))"
  then have "item = (pkg, \<lparr>total = total (lookup d pkg) + n,
                            covered = covered (lookup d pkg) + (if 0 < c then n else 0)\<rparr>)
             \<or> item \<in> set d"
    using set_update_subset by (fastforce simp: fold_record_update)
  moreover have "covered (lookup d pkg) \<le> total (lookup d pkg)"
    using lookup_cases [of d pkg] inv by auto
  ultimately show "covered (snd item) \<le> total (snd item)"
    using inv nonneg by auto
qed

subsection \<open>The whole loop\<close>

lemma process_lines_append:
  "process_lines pfx d (xs @ ys) =
     (case process_lines pfx d xs of Inl e \<Rightarrow> Inl e | Inr d' \<Rightarrow> process_lines pfx d' ys)"
  by (induction xs arbitrary: d) (simp_all split: sum.splits)

lemma process_lines_skip:
  assumes "\<And>d. process_line pfx d line = Inr d"
  shows "process_lines pfx d (xs @ line # ys) = process_lines pfx d (xs @ ys)"
  by (simp add: process_lines_append assms split: sum.splits)

lemma process_lines_raises:
  assumes "\<And>d. process_line pfx d line = Inl ValueError"
  shows "process_lines pfx d (xs @ line # ys) = Inl ValueError"
  by (auto simp: process_lines_append assms split: sum.splits intro: error_unique)

lemma process_lines_Cons_Inr:
  assumes "process_lines pfx d (line # rest) = Inr d'"
  obtains d1 where "process_line pfx d line = Inr d1" and "process_lines pfx d1 rest = Inr d'"
  using assms by (auto split: sum.splits)

lemma distinct_process_lines:
  "distinct (map fst d) \<Longrightarrow> process_lines pfx d lines = Inr d' \<Longrightarrow> distinct (map fst d')"
proof (induction lines arbitrary: d)
  case Nil
  then show ?case by simp
next
  case (Cons line rest)
  from Cons.prems(2) obtain d1 where
    d1: "process_line pfx d line = Inr d1" and rest: "process_lines pfx d1 rest = Inr d'"
    by (rule process_lines_Cons_Inr)
  from d1 Cons.prems(1) have "distinct (map fst d1)"
    by (auto simp: process_line_def distinct_fold_record split: sum.splits option.splits)
  then show ?case
    using rest by (rule Cons.IH)
qed

lemma process_lines_covered_le_total:
  assumes "\<forall>line\<in>set lines. \<forall>pkg n c. parse_line pfx line = Inr (Some (pkg, n, c)) \<longrightarrow> 0 \<le> n"
    and "\<forall>item\<in>set d. covered (snd item) \<le> total (snd item)"
    and "process_lines pfx d lines = Inr d'"
  shows "\<forall>item\<in>set d'. covered (snd item) \<le> total (snd item)"
  using assms
proof (induction lines arbitrary: d)
  case Nil
  then show ?case by simp
next
  case (Cons line rest)
  from Cons.prems(3) obtain d1 where
    d1: "process_line pfx d line = Inr d1" and rest: "process_lines pfx d1 rest = Inr d'"
    by (rule process_lines_Cons_Inr)
  have "\<forall>item\<in>set d1. covered (snd item) \<le> total (snd item)"
  proof (cases "parse_line pfx line")
    case (Inl e)
    with d1 show ?thesis by (simp add: process_line_def)
  next
    case (Inr r)
    show ?thesis
    proof (cases r)
      case None
      with Inr d1 Cons.prems(2) show ?thesis by (simp add: process_line_def)
    next
      case (Some rec)
      obtain pkg n c where rec: "rec = (pkg, n, c)" by (cases rec)
      with Inr Some Cons.prems(1) have "0 \<le> n" by simp
      with Cons.prems(2)
      have "\<forall>item\<in>set (fold_record d (pkg, n, c)). covered (snd item) \<le> total (snd item)"
        by (rule fold_record_covered_le_total)
      with Inr Some rec d1 show ?thesis by (simp add: process_line_def)
    qed
  qed
  moreover from Cons.prems(1) have
    "\<forall>line\<in>set rest. \<forall>pkg n c. parse_line pfx line = Inr (Some (pkg, n, c)) \<longrightarrow> 0 \<le> n"
    by simp
  ultimately show ?case
    using rest Cons.IH by blast
qed

subsection \<open>Two lines commute\<close>

lemma map_of_fold_record_map: "map_of (fold_record d r) = fold_record_map (map_of d) r"
  by (cases r) (simp add: map_of_fold_record fold_record_map_def lookup_def Let_def)

lemma fold_record_map_commute:
  "fold_record_map (fold_record_map m r1) r2 = fold_record_map (fold_record_map m r2) r1"
proof (cases r1; cases r2)
  fix p1 n1 c1 p2 n2 c2
  assume r: "r1 = (p1, n1, c1)" "r2 = (p2, n2, c2)"
  show ?thesis
  proof (cases "p1 = p2")
    case True
    then show ?thesis
      by (simp add: r fold_record_map_def Let_def add.commute add.left_commute)
  next
    case False
    then show ?thesis
      by (simp add: r fold_record_map_def Let_def fun_upd_twist)
  qed
qed

lemma line_step_commute:
  "line_step pfx l1 \<circ> line_step pfx l2 = line_step pfx l2 \<circ> line_step pfx l1"
proof
  fix r
  show "(line_step pfx l1 \<circ> line_step pfx l2) r = (line_step pfx l2 \<circ> line_step pfx l1) r"
    by (auto simp: line_step_def fold_record_map_commute
             split: sum.splits option.splits intro: error_unique)
qed

lemma process_lines_as_fold:
  "map_sum id map_of (process_lines pfx d lines) = fold (line_step pfx) lines (Inr (map_of d))"
proof (induction lines arbitrary: d)
  case Nil
  show ?case by simp
next
  case (Cons line rest)
  have stuck: "fold (line_step pfx) xs (Inl e) = Inl e" for xs e
    by (induction xs) (simp_all add: line_step_def)
  show ?case
  proof (cases "process_line pfx d line")
    case (Inl e)
    then have "line_step pfx line (Inr (map_of d)) = Inl e"
      by (auto simp: line_step_def process_line_def split: sum.splits option.splits)
    with Inl show ?thesis
      by (simp add: stuck)
  next
    case (Inr d')
    then have "line_step pfx line (Inr (map_of d)) = Inr (map_of d')"
      by (auto simp: line_step_def process_line_def map_of_fold_record_map
               split: sum.splits option.splits)
    with Inr Cons.IH [of d'] show ?thesis
      by simp
  qed
qed

lemma aggregates_permuted:
  assumes "mset lines' = mset lines"
  shows "map_sum id map_of (process_lines pfx d lines') =
         map_sum id map_of (process_lines pfx d lines)"
proof -
  have "fold (line_step pfx) lines' = fold (line_step pfx) lines"
    using assms by (intro fold_multiset_equiv line_step_commute)
  then show ?thesis
    by (simp add: process_lines_as_fold)
qed

text \<open>Two dictionaries with the same content give the same report: the report reads the
  dictionary through \<^verbatim>\<open>sorted(pkg_stats.items())\<close> and through two sums.\<close>

lemma same_map_same_report:
  assumes "distinct (map fst d)" and "distinct (map fst d')" and "map_of d' = map_of d"
  shows "sort_key fst d' = sort_key fst d \<and> overall_total d' = overall_total d \<and>
         overall_covered d' = overall_covered d"
proof -
  from assms have "set d' = set d"
    by (simp add: map_of_inject_set)
  moreover from assms(1,2) have "distinct d" "distinct d'"
    by (simp_all add: distinct_map)
  ultimately have m: "mset d' = mset d"
    by (simp add: set_eq_iff_mset_eq_distinct)
  have "inj_on fst (set d')"
    using assms(2) by (simp add: distinct_map)
  with m have "sort_key fst d' = sort_key fst d"
    by (intro sort_key_inj_key_eq) simp_all
  moreover have "sum_list (map f d') = sum_list (map f d)" for f :: "string \<times> stats \<Rightarrow> int"
    using m by (metis mset_map sum_mset_sum_list)
  ultimately show ?thesis
    by (simp add: overall_total_def overall_covered_def)
qed

lemma report_permuted:
  assumes "mset lines' = mset lines"
  shows "analyze pfx lines' = analyze pfx lines"
proof -
  have eq: "map_sum id map_of (process_lines pfx [] lines') =
            map_sum id map_of (process_lines pfx [] lines)"
    using assms by (rule aggregates_permuted)
  show ?thesis
  proof (cases "process_lines pfx [] lines")
    case (Inl e)
    with eq show ?thesis
      by (cases "process_lines pfx [] lines'") (simp_all add: analyze_def)
  next
    case (Inr d)
    with eq obtain d' where d': "process_lines pfx [] lines' = Inr d'" and m: "map_of d' = map_of d"
      by (cases "process_lines pfx [] lines'") simp_all
    have "distinct (map fst d)" "distinct (map fst d')"
      using Inr d' distinct_process_lines [of "[]"] by simp_all
    then have "sort_key fst d' = sort_key fst d \<and> overall_total d' = overall_total d \<and>
         overall_covered d' = overall_covered d"
      using m by (rule same_map_same_report)
    then show ?thesis
      by (simp add: analyze_def Inr d' coverage_table_def improvement_table_def results_def
            overall_coverage_def)
  qed
qed

section \<open>Properties of the report\<close>

lemma set_results: "set (results d) = result_of ` {item \<in> set d. 0 < total (snd item)}"
  by (auto simp: results_def)

text \<open>Every package is counted once in the overall sums: the keys of a dictionary are
  distinct.\<close>

lemma sum_over_keys:
  assumes "distinct (map fst d)"
  shows "(\<Sum>item\<leftarrow>d. f (snd item)) = (\<Sum>k\<in>fst ` set d. f (lookup d k))"
  using assms
proof (induction d)
  case Nil
  show ?case by simp
next
  case (Cons item d)
  obtain k v where item: "item = (k, v)" by (cases item)
  from Cons.prems item have notin: "k \<notin> fst ` set d" and dist: "distinct (map fst d)"
    by auto
  have "(\<Sum>k'\<in>fst ` set d. f (lookup ((k, v) # d) k')) = (\<Sum>k'\<in>fst ` set d. f (lookup d k'))"
    using notin by (intro sum.cong) (auto simp: lookup_def)
  with notin Cons.IH [OF dist] show ?case
    by (simp add: item lookup_def)
qed

section \<open>The claims\<close>

subsection \<open>C1: what a record adds to its aggregate\<close>

text \<open>
  C1. Whenever a line yields a record \<open>(pkg, statements, execs)\<close>, the loop body succeeds,
  and in the new dictionary the aggregate of \<open>pkg\<close> (the fresh one, all zero, when \<open>pkg\<close> was
  not yet a key) has its total increased by \<open>statements\<close> whatever \<open>execs\<close> is, and its
  covered increased by \<open>statements\<close> exactly when \<open>execs > 0\<close>; with \<open>execs \<le> 0\<close> covered
  is unchanged. No other aggregate changes.
\<close>

theorem record_folded_into_aggregate:
  assumes "parse_line pfx line = Inr (Some (pkg, statements, execs))"
  shows "\<exists>d'. process_line pfx d line = Inr d' \<and>
           total (lookup d' pkg) = total (lookup d pkg) + statements \<and>
           covered (lookup d' pkg) =
             (if execs > 0 then covered (lookup d pkg) + statements else covered (lookup d pkg)) \<and>
           (\<forall>k. k \<noteq> pkg \<longrightarrow> lookup d' k = lookup d k)"
  using assms by (simp add: process_line_def lookup_fold_record)

text \<open>A record with execution count 0 and statement count 10, folded into an aggregate
  that stands at 5 of 5: the total becomes 15, covered stays 5.\<close>

theorem record_folded_into_aggregate_witness:
  "\<exists>d'. process_line pkg_prefix
           [(''github.com/junbin-yang/go-kitbox/pkg/a'', \<lparr>total = 5, covered = 5\<rparr>)]
           ''github.com/junbin-yang/go-kitbox/pkg/a/file2.go:3.1,4.2 10 0'' = Inr d' \<and>
         total (lookup d' ''github.com/junbin-yang/go-kitbox/pkg/a'') = 15 \<and>
         covered (lookup d' ''github.com/junbin-yang/go-kitbox/pkg/a'') = 5"
proof -
  have parsed: "parse_line pkg_prefix ''github.com/junbin-yang/go-kitbox/pkg/a/file2.go:3.1,4.2 10 0''
      = Inr (Some (''github.com/junbin-yang/go-kitbox/pkg/a'', 10, 0))"
    by code_simp
  have before: "lookup [(''github.com/junbin-yang/go-kitbox/pkg/a'', \<lparr>total = 5, covered = 5\<rparr>)]
      ''github.com/junbin-yang/go-kitbox/pkg/a'' = \<lparr>total = 5, covered = 5\<rparr>"
    by (simp add: lookup_def)
  show ?thesis
    using record_folded_into_aggregate
      [OF parsed, of "[(''github.com/junbin-yang/go-kitbox/pkg/a'', \<lparr>total = 5, covered = 5\<rparr>)]"]
    by (auto simp: before)
qed

subsection \<open>C2: covered never exceeds total\<close>

text \<open>
  C2, as amended. If every record of the file has a statement count that is not negative,
  then after the loop every aggregate of the dictionary has \<open>covered \<le> total\<close>, in
  whatever order the lines of the file are read. (The script converts the statement count
  with \<^verbatim>\<open>int()\<close>, which accepts a sign, and adds it without looking at it.)
\<close>

theorem covered_le_total_nonneg:
  assumes "\<forall>line\<in>set lines. \<forall>pkg n c. parse_line pfx line = Inr (Some (pkg, n, c)) \<longrightarrow> 0 \<le> n"
    and "mset lines' = mset lines"
    and "process_lines pfx [] lines' = Inr d"
  shows "\<forall>(pkg, st)\<in>set d. covered st \<le> total st"
proof -
  from assms(2) have "set lines' = set lines"
    by (rule mset_eq_setD)
  with assms(1) have
    "\<forall>line\<in>set lines'. \<forall>pkg n c. parse_line pfx line = Inr (Some (pkg, n, c)) \<longrightarrow> 0 \<le> n"
    by simp
  moreover have "\<forall>item\<in>set ([] :: pkg_stats). covered (snd item) \<le> total (snd item)"
    by simp
  ultimately have "\<forall>item\<in>set d. covered (snd item) \<le> total (snd item)"
    using assms(3) by (rule process_lines_covered_le_total)
  then show ?thesis
    by auto
qed

text \<open>A file of a mode line and three records, read in another order.\<close>

theorem covered_le_total_nonneg_witness:
  "process_lines pkg_prefix []
     [''github.com/junbin-yang/go-kitbox/pkg/b/file.go:1.1,2.2 4 4'',
      ''github.com/junbin-yang/go-kitbox/pkg/a/file2.go:3.1,4.2 10 0'',
      ''mode: set'',
      ''github.com/junbin-yang/go-kitbox/pkg/a/file.go:1.1,2.2 5 1'']
   = Inr [(''github.com/junbin-yang/go-kitbox/pkg/b'', \<lparr>total = 4, covered = 4\<rparr>),
          (''github.com/junbin-yang/go-kitbox/pkg/a'', \<lparr>total = 15, covered = 5\<rparr>)] \<and>
   covered \<lparr>total = 4, covered = 4\<rparr> \<le> total \<lparr>total = 4, covered = 4\<rparr> \<and>
   covered \<lparr>total = 15, covered = 5\<rparr> \<le> total \<lparr>total = 15, covered = 5\<rparr>"
proof -
  have p0: "parse_line pkg_prefix ''mode: set'' = Inr None"
    by code_simp
  have p1: "parse_line pkg_prefix ''github.com/junbin-yang/go-kitbox/pkg/a/file.go:1.1,2.2 5 1''
      = Inr (Some (''github.com/junbin-yang/go-kitbox/pkg/a'', 5, 1))"
    by code_simp
  have p2: "parse_line pkg_prefix ''github.com/junbin-yang/go-kitbox/pkg/a/file2.go:3.1,4.2 10 0''
      = Inr (Some (''github.com/junbin-yang/go-kitbox/pkg/a'', 10, 0))"
    by code_simp
  have p3: "parse_line pkg_prefix ''github.com/junbin-yang/go-kitbox/pkg/b/file.go:1.1,2.2 4 4''
      = Inr (Some (''github.com/junbin-yang/go-kitbox/pkg/b'', 4, 4))"
    by code_simp
  have nonneg: "\<forall>line\<in>set
     [''mode: set'',
      ''github.com/junbin-yang/go-kitbox/pkg/a/file.go:1.1,2.2 5 1'',
      ''github.com/junbin-yang/go-kitbox/pkg/a/file2.go:3.1,4.2 10 0'',
      ''github.com/junbin-yang/go-kitbox/pkg/b/file.go:1.1,2.2 4 4''].
     \<forall>pkg n c. parse_line pkg_prefix line = Inr (Some (pkg, n, c)) \<longrightarrow> 0 \<le> n"
    using p0 p1 p2 p3 by simp
  have perm: "mset
     [''github.com/junbin-yang/go-kitbox/pkg/b/file.go:1.1,2.2 4 4'',
      ''github.com/junbin-yang/go-kitbox/pkg/a/file2.go:3.1,4.2 10 0'',
      ''mode: set'',
      ''github.com/junbin-yang/go-kitbox/pkg/a/file.go:1.1,2.2 5 1''] =
     mset
     [''mode: set'',
      ''github.com/junbin-yang/go-kitbox/pkg/a/file.go:1.1,2.2 5 1'',
      ''github.com/junbin-yang/go-kitbox/pkg/a/file2.go:3.1,4.2 10 0'',
      ''github.com/junbin-yang/go-kitbox/pkg/b/file.go:1.1,2.2 4 4'']"
    by (simp add: add.commute add.left_commute)
  have run: "process_lines pkg_prefix []
     [''github.com/junbin-yang/go-kitbox/pkg/b/file.go:1.1,2.2 4 4'',
      ''github.com/junbin-yang/go-kitbox/pkg/a/file2.go:3.1,4.2 10 0'',
      ''mode: set'',
      ''github.com/junbin-yang/go-kitbox/pkg/a/file.go:1.1,2.2 5 1'']
   = Inr [(''github.com/junbin-yang/go-kitbox/pkg/b'', \<lparr>total = 4, covered = 4\<rparr>),
          (''github.com/junbin-yang/go-kitbox/pkg/a'', \<lparr>total = 15, covered = 5\<rparr>)]"
    by (simp add: process_line_def p0 p1 p2 p3 fold_record_def lookup_def)
  show ?thesis
    using covered_le_total_nonneg [OF nonneg perm run] run by simp
qed

text \<open>The claim without the condition fails: a record line with statement count \<open>-5\<close> and
  execution count 0 leaves its package at total \<open>-5\<close> and covered 0.\<close>

theorem covered_le_total_counterexample:
  "process_lines pkg_prefix [] [''github.com/junbin-yang/go-kitbox/pkg/a/x.go:1.1,2.2 -5 0'']
     = Inr [(''github.com/junbin-yang/go-kitbox/pkg/a'', \<lparr>total = - 5, covered = 0\<rparr>)] \<and>
   \<not> covered \<lparr>total = - 5, covered = 0\<rparr> \<le> total \<lparr>total = - 5, covered = 0\<rparr>"
proof -
  have "parse_line pkg_prefix ''github.com/junbin-yang/go-kitbox/pkg/a/x.go:1.1,2.2 -5 0''
      = Inr (Some (''github.com/junbin-yang/go-kitbox/pkg/a'', - 5, 0))"
    by code_simp
  then show ?thesis
    by (simp add: process_line_def fold_record_def lookup_def)
qed

subsection \<open>C3: the order of the lines does not matter\<close>

text \<open>
  C3. If \<open>lines'\<close> is a permutation of \<open>lines\<close>, the loop ends in the same way on both:
  either it raises on both, or it ends on both with dictionaries that hold the same total
  and covered for every package key (\<open>map_of\<close> reads a dictionary as the map from its keys
  to their aggregates). The whole report is then the same as well. A mode line may stay
  first or move with the others: it is skipped wherever it stands.
\<close>

theorem permuted_lines_same_aggregates:
  assumes "mset lines' = mset lines"
  shows "map_sum id map_of (process_lines pfx [] lines') =
           map_sum id map_of (process_lines pfx [] lines) \<and>
         analyze pfx lines' = analyze pfx lines"
proof
  show "map_sum id map_of (process_lines pfx [] lines') = map_sum id map_of (process_lines pfx [] lines)"
    using assms by (rule aggregates_permuted)
  show "analyze pfx lines' = analyze pfx lines"
    using assms by (rule report_permuted)
qed

text \<open>The three records of two packages, read backwards after the mode line.\<close>

theorem permuted_lines_same_aggregates_witness:
  "map_sum id map_of (process_lines pkg_prefix []
     [''mode: set'',
      ''github.com/junbin-yang/go-kitbox/pkg/b/file.go:1.1,2.2 4 4'',
      ''github.com/junbin-yang/go-kitbox/pkg/a/file2.go:3.1,4.2 10 0'',
      ''github.com/junbin-yang/go-kitbox/pkg/a/file.go:1.1,2.2 5 1'']) =
   map_sum id map_of (process_lines pkg_prefix []
     [''mode: set'',
      ''github.com/junbin-yang/go-kitbox/pkg/a/file.go:1.1,2.2 5 1'',
      ''github.com/junbin-yang/go-kitbox/pkg/a/file2.go:3.1,4.2 10 0'',
      ''github.com/junbin-yang/go-kitbox/pkg/b/file.go:1.1,2.2 4 4''])"
proof -
  have perm: "mset
     [''mode: set'',
      ''github.com/junbin-yang/go-kitbox/pkg/b/file.go:1.1,2.2 4 4'',
      ''github.com/junbin-yang/go-kitbox/pkg/a/file2.go:3.1,4.2 10 0'',
      ''github.com/junbin-yang/go-kitbox/pkg/a/file.go:1.1,2.2 5 1''] =
     mset
     [''mode: set'',
      ''github.com/junbin-yang/go-kitbox/pkg/a/file.go:1.1,2.2 5 1'',
      ''github.com/junbin-yang/go-kitbox/pkg/a/file2.go:3.1,4.2 10 0'',
      ''github.com/junbin-yang/go-kitbox/pkg/b/file.go:1.1,2.2 4 4'']"
    by (simp add: add.commute add.left_commute)
  from permuted_lines_same_aggregates [OF perm, of pkg_prefix] show ?thesis
    by (rule conjunct1)
qed

subsection \<open>C4: the overall percentage\<close>

text \<open>
  C4. When the loop ends with the dictionary \<open>d\<close>, the run prints a report, and the overall
  percentage of that report is the sum of covered over all aggregates of \<open>d\<close>, divided by
  the sum of total over all aggregates, times 100, when the sum of the totals is positive,
  and 0 otherwise; in particular it is 0 when \<open>d\<close> holds no aggregate.
\<close>

theorem overall_percentage:
  assumes "process_lines pfx [] lines = Inr d"
  shows "\<exists>rep. analyze pfx lines = Inr rep \<and>
           overall rep =
             (if 0 < (\<Sum>(pkg, st)\<leftarrow>d. total st)
              then of_int (\<Sum>(pkg, st)\<leftarrow>d. covered st) / of_int (\<Sum>(pkg, st)\<leftarrow>d. total st) * 100
              else 0) \<and>
           (d = [] \<longrightarrow> overall rep = 0)"
  using assms
  by (simp add: analyze_def overall_coverage_def overall_total_def overall_covered_def
        case_prod_unfold)

text \<open>Two packages with 5 of 15 and 4 of 4 statements covered: 9 of 19 overall.\<close>

theorem overall_percentage_witness:
  "\<exists>rep. analyze pkg_prefix
            [''mode: set'',
             ''github.com/junbin-yang/go-kitbox/pkg/a/file.go:1.1,2.2 5 1'',
             ''github.com/junbin-yang/go-kitbox/pkg/a/file2.go:3.1,4.2 10 0'',
             ''github.com/junbin-yang/go-kitbox/pkg/b/file.go:1.1,2.2 4 4''] = Inr rep \<and>
          overall rep = 9 / 19 * 100"
proof -
  have run: "process_lines pkg_prefix []
            [''mode: set'',
             ''github.com/junbin-yang/go-kitbox/pkg/a/file.go:1.1,2.2 5 1'',
             ''github.com/junbin-yang/go-kitbox/pkg/a/file2.go:3.1,4.2 10 0'',
             ''github.com/junbin-yang/go-kitbox/pkg/b/file.go:1.1,2.2 4 4'']
      = Inr [(''github.com/junbin-yang/go-kitbox/pkg/a'', \<lparr>total = 15, covered = 5\<rparr>),
             (''github.com/junbin-yang/go-kitbox/pkg/b'', \<lparr>total = 4, covered = 4\<rparr>)]"
    by code_simp
  from overall_percentage [OF run] show ?thesis
    by auto
qed

subsection \<open>C5: the status label\<close>

text \<open>
  C5. In every element of \<^verbatim>\<open>results\<close>, and so in every row of the first table, the status
  is \<^verbatim>\<open>Good\<close> if and only if the coverage percentage of that row is at least 75, and it is
  \<^verbatim>\<open>Needs Work\<close> if and only if the percentage is below 75; the percentage is covered
  divided by total, times 100. A row at exactly 75 is \<^verbatim>\<open>Good\<close>.
\<close>

theorem status_label_threshold:
  "(\<forall>(pkg, coverage, status, tot, cov) \<in> set (results d).
      (status = ''Good'' \<longleftrightarrow> coverage \<ge> 75) \<and>
      (status = ''Needs Work'' \<longleftrightarrow> coverage < 75) \<and>
      coverage = of_int cov / of_int tot * 100) \<and>
   (\<forall>(name, coverage, status) \<in> set (coverage_table d).
      (status = ''Good'' \<longleftrightarrow> coverage \<ge> 75) \<and>
      (status = ''Needs Work'' \<longleftrightarrow> coverage < 75))"
proof -
  have row: "(status = ''Good'' \<longleftrightarrow> coverage \<ge> 75) \<and>
      (status = ''Needs Work'' \<longleftrightarrow> coverage < 75) \<and>
      coverage = of_int cov / of_int tot * 100"
    if "(pkg, coverage, status, tot, cov) \<in> set (results d)" for pkg coverage status tot cov
    using that by (auto simp: set_results result_of_def Let_def split: if_splits)
  then show ?thesis
    by (fastforce simp: coverage_table_def)
qed

text \<open>The boundary: a package with 3 of 4 statements covered stands at exactly 75 and is
  \<^verbatim>\<open>Good\<close>; with 2 of 4 it is \<^verbatim>\<open>Needs Work\<close>.\<close>

theorem status_label_threshold_witness:
  "coverage_table
     [(''github.com/junbin-yang/go-kitbox/pkg/a'', \<lparr>total = 4, covered = 3\<rparr>),
      (''github.com/junbin-yang/go-kitbox/pkg/b'', \<lparr>total = 4, covered = 2\<rparr>)]
     = [(''b'', 50, ''Needs Work''), (''a'', 75, ''Good'')] \<and>
   (75 :: rat) \<ge> 75 \<and> (50 :: rat) < 75"
proof -
  have rows: "coverage_table
     [(''github.com/junbin-yang/go-kitbox/pkg/a'', \<lparr>total = 4, covered = 3\<rparr>),
      (''github.com/junbin-yang/go-kitbox/pkg/b'', \<lparr>total = 4, covered = 2\<rparr>)]
     = [(''b'', 50, ''Needs Work''), (''a'', 75, ''Good'')]"
    by code_simp
  show ?thesis
    using status_label_threshold
      [of "[(''github.com/junbin-yang/go-kitbox/pkg/a'', \<lparr>total = 4, covered = 3\<rparr>),
            (''github.com/junbin-yang/go-kitbox/pkg/b'', \<lparr>total = 4, covered = 2\<rparr>)]"]
    by (simp add: rows)
qed

subsection \<open>C6: malformed lines and mode lines are skipped\<close>

text \<open>
  C6. A line with fewer than three fields, and a line that starts with \<^verbatim>\<open>mode:\<close>, is
  skipped: the loop body raises nothing and returns the dictionary it was given, so the
  run on a file that holds such a line, at any place, ends as the run on the file without
  it does, with the same report. The loop prints nothing, so no warning is part of any
  report.
\<close>

theorem malformed_and_mode_lines_skipped:
  assumes "length (split_fields (strip line)) < 3 \<or> startswith ''mode:'' line"
  shows "process_line pfx d line = Inr d \<and>
         process_lines pfx d (before @ line # after) = process_lines pfx d (before @ after) \<and>
         analyze pfx (before @ line # after) = analyze pfx (before @ after)"
proof -
  have skip: "process_line pfx d' line = Inr d'" for d'
    using assms by (auto simp: process_line_def parse_line_skipped)
  have "process_lines pfx d' (before @ line # after) = process_lines pfx d' (before @ after)" for d'
    using skip by (rule process_lines_skip)
  then show ?thesis
    using skip by (simp add: analyze_def)
qed

text \<open>A leading mode line, and a line of two fields between two records.\<close>

theorem malformed_and_mode_lines_skipped_witness:
  "analyze pkg_prefix
     [''mode: atomic'',
      ''github.com/junbin-yang/go-kitbox/pkg/a/file.go:1.1,2.2 5 1'',
      ''github.com/junbin-yang/go-kitbox/pkg/b/file.go:1.1,2.2 4 4''] =
   analyze pkg_prefix
     [''github.com/junbin-yang/go-kitbox/pkg/a/file.go:1.1,2.2 5 1'',
      ''github.com/junbin-yang/go-kitbox/pkg/b/file.go:1.1,2.2 4 4''] \<and>
   analyze pkg_prefix
     [''github.com/junbin-yang/go-kitbox/pkg/a/file.go:1.1,2.2 5 1'',
      ''github.com/junbin-yang/go-kitbox/pkg/a/file.go:3.1,4.2 7'',
      ''github.com/junbin-yang/go-kitbox/pkg/b/file.go:1.1,2.2 4 4''] =
   analyze pkg_prefix
     [''github.com/junbin-yang/go-kitbox/pkg/a/file.go:1.1,2.2 5 1'',
      ''github.com/junbin-yang/go-kitbox/pkg/b/file.go:1.1,2.2 4 4'']"
proof -
  have mode: "length (split_fields (strip ''mode: atomic'')) < 3 \<or> startswith ''mode:'' ''mode: atomic''"
    by (simp add: startswith_def)
  have short: "length (split_fields (strip ''github.com/junbin-yang/go-kitbox/pkg/a/file.go:3.1,4.2 7'')) < 3
      \<or> startswith ''mode:'' ''github.com/junbin-yang/go-kitbox/pkg/a/file.go:3.1,4.2 7''"
    by code_simp
  show ?thesis
    using malformed_and_mode_lines_skipped [OF mode, of pkg_prefix "[]" "[]"
        "[''github.com/junbin-yang/go-kitbox/pkg/a/file.go:1.1,2.2 5 1'',
          ''github.com/junbin-yang/go-kitbox/pkg/b/file.go:1.1,2.2 4 4'']"]
      malformed_and_mode_lines_skipped [OF short, of pkg_prefix "[]"
        "[''github.com/junbin-yang/go-kitbox/pkg/a/file.go:1.1,2.2 5 1'']"
        "[''github.com/junbin-yang/go-kitbox/pkg/b/file.go:1.1,2.2 4 4'']"]
    by (simp only: append.simps)
qed

subsection \<open>C7: a path that does not match\<close>

text \<open>
  C7, as amended. A line of at least three fields whose file path does not match the
  package pattern, and whose third field is an integer (or which is a mode line),
  contributes nothing: the loop body raises nothing and returns the dictionary it was
  given, so every package's total and covered are unchanged, and the run ends as it does
  on the file without the line. (The third field is converted before the pattern is
  tried, so a line whose third field is no integer ends the run whether its path matches
  or not. A line of fewer than three fields has no third field; it is skipped, see C6.)
\<close>

theorem unmatched_path_contributes_nothing:
  assumes "3 \<le> length (split_fields (strip line))"
    and "pkg_match pfx (before_colon (split_fields (strip line) ! 0)) = None"
    and "startswith ''mode:'' line \<or> py_int (split_fields (strip line) ! 2) \<noteq> None"
  shows "process_line pfx d line = Inr d \<and>
         process_lines pfx d (before @ line # after) = process_lines pfx d (before @ after) \<and>
         analyze pfx (before @ line # after) = analyze pfx (before @ after)"
proof -
  have "parse_line pfx line = Inr None"
    using assms by (auto simp: parse_line_skipped parse_line_unmatched)
  then have skip: "process_line pfx d' line = Inr d'" for d'
    by (simp add: process_line_def)
  have "process_lines pfx d' (before @ line # after) = process_lines pfx d' (before @ after)" for d'
    using skip by (rule process_lines_skip)
  then show ?thesis
    using skip by (simp add: analyze_def)
qed

text \<open>A file of the repository's \<^verbatim>\<open>cmd\<close> tree, outside \<^verbatim>\<open>pkg\<close>; its second field need
  not even be a number.\<close>

theorem unmatched_path_contributes_nothing_witness:
  "process_line pkg_prefix
     [(''github.com/junbin-yang/go-kitbox/pkg/a'', \<lparr>total = 5, covered = 5\<rparr>)]
     ''github.com/junbin-yang/go-kitbox/cmd/main.go:1.1,2.2 many 1'' =
   Inr [(''github.com/junbin-yang/go-kitbox/pkg/a'', \<lparr>total = 5, covered = 5\<rparr>)]"
proof -
  have fields: "3 \<le> length (split_fields (strip ''github.com/junbin-yang/go-kitbox/cmd/main.go:1.1,2.2 many 1''))"
    by code_simp
  have unmatched: "pkg_match pkg_prefix (before_colon
      (split_fields (strip ''github.com/junbin-yang/go-kitbox/cmd/main.go:1.1,2.2 many 1'') ! 0)) = None"
    by code_simp
  have "py_int (split_fields (strip ''github.com/junbin-yang/go-kitbox/cmd/main.go:1.1,2.2 many 1'') ! 2)
      = Some 1"
    by code_simp
  then have execs: "startswith ''mode:'' ''github.com/junbin-yang/go-kitbox/cmd/main.go:1.1,2.2 many 1''
      \<or> py_int (split_fields (strip ''github.com/junbin-yang/go-kitbox/cmd/main.go:1.1,2.2 many 1'') ! 2)
        \<noteq> None"
    by simp
  from unmatched_path_contributes_nothing [OF fields unmatched execs] show ?thesis
    by (rule conjunct1)
qed

text \<open>The claim without the condition on the third field fails: the path of this line does
  not match, and the line ends the run with the conversion error.\<close>

theorem unmatched_path_counterexample:
  "pkg_match pkg_prefix (before_colon
      (split_fields (strip ''github.com/junbin-yang/go-kitbox/cmd/main.go:1.1,2.2 5 x'') ! 0)) = None \<and>
   process_line pkg_prefix [] ''github.com/junbin-yang/go-kitbox/cmd/main.go:1.1,2.2 5 x''
     = Inl ValueError \<and>
   analyze pkg_prefix [''github.com/junbin-yang/go-kitbox/cmd/main.go:1.1,2.2 5 x''] = Inl ValueError"
  by code_simp

subsection \<open>C8: the second table\<close>

text \<open>
  C8. The second table holds exactly the elements of \<^verbatim>\<open>results\<close> whose percentage is below
  75, in the order of \<^verbatim>\<open>results\<close>, each with its short name, its percentage and
  \<^verbatim>\<open>missing = total - covered\<close>. Read on the dictionary: a triple is a row of the second
  table if and only if it comes from an aggregate with a positive total whose percentage is
  below 75, and its third component is that aggregate's total minus its covered.
\<close>

theorem improvement_table_rows:
  "improvement_table d =
     map (\<lambda>(pkg, coverage, status, tot, cov). (last_segment pkg, coverage, tot - cov))
       (filter (\<lambda>(pkg, coverage, status, tot, cov). coverage < 75) (results d)) \<and>
   (\<forall>name coverage missing.
      (name, coverage, missing) \<in> set (improvement_table d) \<longleftrightarrow>
      (\<exists>pkg st. (pkg, st) \<in> set d \<and> 0 < total st \<and> name = last_segment pkg \<and>
         coverage = of_int (covered st) / of_int (total st) * 100 \<and> coverage < 75 \<and>
         missing = total st - covered st))"
proof -
  have list: "improvement_table d =
     map (\<lambda>(pkg, coverage, status, tot, cov). (last_segment pkg, coverage, tot - cov))
       (filter (\<lambda>(pkg, coverage, status, tot, cov). coverage < 75) (results d))"
    by (simp add: improvement_table_def case_prod_unfold)
  have "(name, coverage, missing) \<in> set (improvement_table d) \<longleftrightarrow>
      (\<exists>pkg st. (pkg, st) \<in> set d \<and> 0 < total st \<and> name = last_segment pkg \<and>
         coverage = of_int (covered st) / of_int (total st) * 100 \<and> coverage < 75 \<and>
         missing = total st - covered st)" for name coverage missing
    by (force simp: improvement_table_def set_results result_of_def Let_def image_iff)
  with list show ?thesis
    by blast
qed

text \<open>A package with 2 of 4 statements covered is listed with the deficit 2, although one
  more covered statement would bring it to 75 and out of the table.\<close>

theorem improvement_table_rows_witness:
  "(''a'', 50, 2) \<in> set (improvement_table
       [(''github.com/junbin-yang/go-kitbox/pkg/a'', \<lparr>total = 4, covered = 2\<rparr>)]) \<and>
   improvement_table
       [(''github.com/junbin-yang/go-kitbox/pkg/a'', \<lparr>total = 4, covered = 2 + 1\<rparr>)] = []"
proof -
  have name: "last_segment ''github.com/junbin-yang/go-kitbox/pkg/a'' = ''a''"
    by code_simp
  have "\<exists>pkg st. (pkg, st) \<in> set [(''github.com/junbin-yang/go-kitbox/pkg/a'', \<lparr>total = 4, covered = 2\<rparr>)]
      \<and> 0 < total st \<and> ''a'' = last_segment pkg \<and>
      (50 :: rat) = of_int (covered st) / of_int (total st) * 100 \<and> (50 :: rat) < 75 \<and>
      2 = total st - covered st"
    by (simp add: name)
  then have listed: "(''a'', 50, 2) \<in> set (improvement_table
       [(''github.com/junbin-yang/go-kitbox/pkg/a'', \<lparr>total = 4, covered = 2\<rparr>)])"
    using improvement_table_rows
      [of "[(''github.com/junbin-yang/go-kitbox/pkg/a'', \<lparr>total = 4, covered = 2\<rparr>)]"]
    by blast
  have "improvement_table
       [(''github.com/junbin-yang/go-kitbox/pkg/a'', \<lparr>total = 4, covered = 2 + 1\<rparr>)] = []"
    by code_simp
  with listed show ?thesis
    by (rule conjI)
qed

subsection \<open>C9: the example of the specification\<close>

text \<open>
  C9. On the three lines of the example, with \<^verbatim>\<open>pkg/\<close> as the literal prefix of the pattern
  (so that the pattern matches \<^verbatim>\<open>pkg/<name>\<close>), the loop ends with package \<^verbatim>\<open>pkg/a\<close> at total 15
  and covered 5 and package \<^verbatim>\<open>pkg/b\<close> at total 4 and covered 4. The report lists \<^verbatim>\<open>a\<close> with
  \<open>100/3\<close> per cent and \<^verbatim>\<open>Needs Work\<close>, then \<^verbatim>\<open>b\<close> with 100 per cent and \<^verbatim>\<open>Good\<close>; the overall
  totals are 19 and 9, the overall percentage is \<open>900/19\<close>. \<open>100/3\<close> lies within 0.05 of
  33.3 and \<open>900/19\<close> within 0.05 of 47.4, so they print as \<^verbatim>\<open>33.3\<close> and \<^verbatim>\<open>47.4\<close>. The script
  itself, whose pattern starts with the repository root, gives the same report on the same
  lines with the root before each path.
\<close>

theorem spec_example:
  "process_lines ''pkg/'' []
     [''pkg/a/file.go:1.1,2.2 5 1'', ''pkg/a/file2.go:3.1,4.2 10 0'', ''pkg/b/file.go:1.1,2.2 4 4'']
     = Inr [(''pkg/a'', \<lparr>total = 15, covered = 5\<rparr>), (''pkg/b'', \<lparr>total = 4, covered = 4\<rparr>)] \<and>
   analyze ''pkg/''
     [''pkg/a/file.go:1.1,2.2 5 1'', ''pkg/a/file2.go:3.1,4.2 10 0'', ''pkg/b/file.go:1.1,2.2 4 4'']
     = Inr \<lparr>table = [(''a'', 100 / 3, ''Needs Work''), (''b'', 100, ''Good'')],
            overall = 900 / 19,
            needing = [(''a'', 100 / 3, 10)]\<rparr> \<and>
   overall_total [(''pkg/a'', \<lparr>total = 15, covered = 5\<rparr>), (''pkg/b'', \<lparr>total = 4, covered = 4\<rparr>)] = 19 \<and>
   overall_covered [(''pkg/a'', \<lparr>total = 15, covered = 5\<rparr>), (''pkg/b'', \<lparr>total = 4, covered = 4\<rparr>)] = 9 \<and>
   (333 / 10 - 1 / 20 < (100 / 3 :: rat) \<and> (100 / 3 :: rat) < 333 / 10 + 1 / 20) \<and>
   (474 / 10 - 1 / 20 < (900 / 19 :: rat) \<and> (900 / 19 :: rat) < 474 / 10 + 1 / 20) \<and>
   analyze pkg_prefix
     [''github.com/junbin-yang/go-kitbox/pkg/a/file.go:1.1,2.2 5 1'',
      ''github.com/junbin-yang/go-kitbox/pkg/a/file2.go:3.1,4.2 10 0'',
      ''github.com/junbin-yang/go-kitbox/pkg/b/file.go:1.1,2.2 4 4'']
     = Inr \<lparr>table = [(''a'', 100 / 3, ''Needs Work''), (''b'', 100, ''Good'')],
            overall = 900 / 19,
            needing = [(''a'', 100 / 3, 10)]\<rparr>"
proof -
  have loop: "process_lines ''pkg/'' []
     [''pkg/a/file.go:1.1,2.2 5 1'', ''pkg/a/file2.go:3.1,4.2 10 0'', ''pkg/b/file.go:1.1,2.2 4 4'']
     = Inr [(''pkg/a'', \<lparr>total = 15, covered = 5\<rparr>), (''pkg/b'', \<lparr>total = 4, covered = 4\<rparr>)]"
    by code_simp
  have rep: "analyze ''pkg/''
     [''pkg/a/file.go:1.1,2.2 5 1'', ''pkg/a/file2.go:3.1,4.2 10 0'', ''pkg/b/file.go:1.1,2.2 4 4'']
     = Inr \<lparr>table = [(''a'', 100 / 3, ''Needs Work''), (''b'', 100, ''Good'')],
            overall = 900 / 19,
            needing = [(''a'', 100 / 3, 10)]\<rparr>"
    by code_simp
  have tot: "overall_total [(''pkg/a'', \<lparr>total = 15, covered = 5\<rparr>), (''pkg/b'', \<lparr>total = 4, covered = 4\<rparr>)] = 19"
    by (simp add: overall_total_def)
  have cov: "overall_covered [(''pkg/a'', \<lparr>total = 15, covered = 5\<rparr>), (''pkg/b'', \<lparr>total = 4, covered = 4\<rparr>)] = 9"
    by (simp add: overall_covered_def)
  have a: "333 / 10 - 1 / 20 < (100 / 3 :: rat)" "(100 / 3 :: rat) < 333 / 10 + 1 / 20"
    by simp_all
  have b: "474 / 10 - 1 / 20 < (900 / 19 :: rat)" "(900 / 19 :: rat) < 474 / 10 + 1 / 20"
    by simp_all
  have script: "analyze pkg_prefix
     [''github.com/junbin-yang/go-kitbox/pkg/a/file.go:1.1,2.2 5 1'',
      ''github.com/junbin-yang/go-kitbox/pkg/a/file2.go:3.1,4.2 10 0'',
      ''github.com/junbin-yang/go-kitbox/pkg/b/file.go:1.1,2.2 4 4'']
     = Inr \<lparr>table = [(''a'', 100 / 3, ''Needs Work''), (''b'', 100, ''Good'')],
            overall = 900 / 19,
            needing = [(''a'', 100 / 3, 10)]\<rparr>"
    by code_simp
  from loop rep tot cov a b script show ?thesis
    by (intro conjI)
qed

subsection \<open>C10: an execution count that is no integer\<close>

text \<open>
  C10, as amended. A line that does not start with \<^verbatim>\<open>mode:\<close>, has at least three fields
  and a third field that \<^verbatim>\<open>int()\<close> refuses makes the loop body raise \<^verbatim>\<open>ValueError\<close>, whether
  its path matches the package pattern or not; a file that holds such a line, at any
  place, ends the run with that exception and without a report.
\<close>

theorem bad_execution_count_is_fatal:
  assumes "\<not> startswith ''mode:'' line"
    and "3 \<le> length (split_fields (strip line))"
    and "py_int (split_fields (strip line) ! 2) = None"
  shows "process_line pfx d line = Inl ValueError \<and>
         process_lines pfx d (before @ line # after) = Inl ValueError \<and>
         analyze pfx (before @ line # after) = Inl ValueError"
proof -
  have raises: "process_line pfx d' line = Inl ValueError" for d'
    using assms by (simp add: process_line_def parse_line_bad_execs)
  have "process_lines pfx d' (before @ line # after) = Inl ValueError" for d'
    using raises by (rule process_lines_raises)
  then show ?thesis
    using raises by (simp add: analyze_def)
qed

text \<open>A line outside \<^verbatim>\<open>pkg\<close> with execution count \<^verbatim>\<open>1.5\<close>, after a good record.\<close>

theorem bad_execution_count_is_fatal_witness:
  "pkg_match pkg_prefix (before_colon
      (split_fields (strip ''github.com/junbin-yang/go-kitbox/examples/e.go:1.1,2.2 3 1.5'') ! 0)) = None \<and>
   analyze pkg_prefix
     [''github.com/junbin-yang/go-kitbox/pkg/a/file.go:1.1,2.2 5 1'',
      ''github.com/junbin-yang/go-kitbox/examples/e.go:1.1,2.2 3 1.5''] = Inl ValueError"
proof -
  have nomode: "\<not> startswith ''mode:'' ''github.com/junbin-yang/go-kitbox/examples/e.go:1.1,2.2 3 1.5''"
    by code_simp
  have fields: "3 \<le> length (split_fields (strip ''github.com/junbin-yang/go-kitbox/examples/e.go:1.1,2.2 3 1.5''))"
    by code_simp
  have execs: "py_int (split_fields (strip ''github.com/junbin-yang/go-kitbox/examples/e.go:1.1,2.2 3 1.5'') ! 2)
      = None"
    by code_simp
  have unmatched: "pkg_match pkg_prefix (before_colon
      (split_fields (strip ''github.com/junbin-yang/go-kitbox/examples/e.go:1.1,2.2 3 1.5'') ! 0)) = None"
    by code_simp
  show ?thesis
    using bad_execution_count_is_fatal [OF nomode fields execs, of pkg_prefix "[]"
        "[''github.com/junbin-yang/go-kitbox/pkg/a/file.go:1.1,2.2 5 1'']" "[]"] unmatched
    by (simp only: append.simps)
qed

text \<open>The claim for every line of three fields fails on a mode line: this one has three
  fields, its third is no integer, and it is skipped; the run ends with its (empty)
  report.\<close>

theorem bad_execution_count_counterexample:
  "3 \<le> length (split_fields (strip ''mode: set x'')) \<and>
   py_int (split_fields (strip ''mode: set x'') ! 2) = None \<and>
   process_line pkg_prefix [] ''mode: set x'' = Inr [] \<and>
   analyze pkg_prefix [''mode: set x''] = Inr \<lparr>table = [], overall = 0, needing = []\<rparr>"
  by code_simp

end
